theory Spec2Isabelle
  imports Complex_Main
begin

section \<open>Shared types (src/types/index.ts)\<close>

text \<open>
  \<^verbatim>\<open>export type BlockType = 'grass' | 'dirt' | 'stone' | 'wood' | 'glass';\<close>
\<close>

datatype BlockType = Grass | Dirt | Stone | Wood | Glass

text \<open>
  \<^verbatim>\<open>PositionKey\<close> is a template-literal string type; a key is a string. \<^verbatim>\<open>Vec3\<close> is a
  triple of numbers. Grid coordinates handed to the store are integers (\<open>int\<close>); the
  continuous quantities of the player (position, velocity, time) are modelled as exact reals,
  so the rounding of IEEE doubles is not part of the model.
\<close>

type_synonym PositionKey = string
type_synonym Cell = "int \<times> int \<times> int"
type_synonym Vec3 = "real \<times> real \<times> real"
type_synonym Blocks = "PositionKey \<Rightarrow> BlockType option"

section \<open>Spatial key codec (store/useStore.ts)\<close>

subsection \<open>Number to string, for integers\<close>

text \<open>
  A template literal renders an integer-valued number in decimal, with a leading minus sign
  when negative (and both zeros as \<^verbatim>\<open>0\<close>). That is the form JavaScript uses for every
  integer of magnitude below \<open>10\<^sup>2\<^sup>1\<close>.
\<close>

definition digit_char :: "nat \<Rightarrow> char" where
  "digit_char d = ''0123456789'' ! (d mod 10)"

fun digits :: "nat \<Rightarrow> string" where
  "digits n = (if n < 10 then [digit_char n] else digits (n div 10) @ [digit_char (n mod 10)])"

declare digits.simps [simp del]

definition NumberToString :: "int \<Rightarrow> string" where
  "NumberToString n = (if n < 0 then CHR ''-'' # digits (nat (- n)) else digits (nat n))"

text \<open>
  \<^verbatim>\<open>export function posKey(x, y, z) { return `${x},${y},${z}`; }\<close>
\<close>

definition posKey :: "int \<Rightarrow> int \<Rightarrow> int \<Rightarrow> PositionKey" where
  "posKey x y z = NumberToString x @ '','' @ NumberToString y @ '','' @ NumberToString z"

text \<open>
  \<^verbatim>\<open>fastPosKey\<close> memoises the same template literal in a nested map \<open>x \<rightarrow> y \<rightarrow> z \<rightarrow> key\<close>;
  an entry is only ever filled with the string computed for its own coordinates, so the
  function returns what the template literal returns and the cache is not part of the model.
\<close>

definition fastPosKey :: "int \<Rightarrow> int \<Rightarrow> int \<Rightarrow> PositionKey" where
  "fastPosKey x y z = NumberToString x @ '','' @ NumberToString y @ '','' @ NumberToString z"

subsection \<open>String to number\<close>

text \<open>
  \<^verbatim>\<open>Number(v)\<close> never throws on a string or on \<^verbatim>\<open>undefined\<close>: it returns a number, and
  \<^verbatim>\<open>NaN\<close> is one of them. The model follows the StringToNumber grammar of the language
  (white space trimmed, the empty string is \<open>0\<close>, an optional sign, \<^verbatim>\<open>Infinity\<close>, decimal
  digits with an optional fraction and exponent, and the unsigned \<^verbatim>\<open>0x\<close>, \<^verbatim>\<open>0o\<close>,
  \<^verbatim>\<open>0b\<close> forms); a finite result is the exact rational value of the literal. A character
  is an 8-bit code unit, so the white space recognised is the tab, the line breaks, the space
  and the no-break space.
\<close>

datatype jsnumber = Finite rat | NaN | PosInfinity | NegInfinity

definition is_ws :: "char \<Rightarrow> bool" where
  "is_ws c = (of_char c \<in> {9, 10, 11, 12, 13, 32, 160 :: nat})"

definition trim :: "string \<Rightarrow> string" where
  "trim s = rev (dropWhile is_ws (rev (dropWhile is_ws s)))"

definition is_digit :: "char \<Rightarrow> bool" where
  "is_digit c = (c \<in> set ''0123456789'')"

definition digit_val :: "char \<Rightarrow> nat" where
  "digit_val c = of_char c - 48"

definition nat_of_digits :: "string \<Rightarrow> nat" where
  "nat_of_digits ds = foldl (\<lambda>a c. 10 * a + digit_val c) 0 ds"

text \<open>The exponent part: nothing, or \<^verbatim>\<open>e\<close>/\<^verbatim>\<open>E\<close>, an optional sign and digits.\<close>

definition ExponentPart :: "string \<Rightarrow> int option" where
  "ExponentPart r =
     (case r of
        [] \<Rightarrow> Some 0
      | c # t \<Rightarrow>
          if c = CHR ''e'' \<or> c = CHR ''E'' then
            (let neg = (t \<noteq> [] \<and> hd t = CHR ''-'');
                 ds = (if t \<noteq> [] \<and> (hd t = CHR ''-'' \<or> hd t = CHR ''+'') then tl t else t)
             in if ds \<noteq> [] \<and> list_all is_digit ds
                then Some (if neg then - int (nat_of_digits ds) else int (nat_of_digits ds))
                else None)
          else None)"

definition scale10 :: "rat \<Rightarrow> int \<Rightarrow> rat" where
  "scale10 v e = (if 0 \<le> e then v * 10 ^ nat e else v / 10 ^ nat (- e))"

definition StrUnsignedDecimalLiteral :: "string \<Rightarrow> jsnumber" where
  "StrUnsignedDecimalLiteral s =
     (if s = ''Infinity'' then PosInfinity
      else
        let ip = takeWhile is_digit s;
            r1 = dropWhile is_digit s;
            hasdot = (r1 \<noteq> [] \<and> hd r1 = CHR ''.'');
            fp = (if hasdot then takeWhile is_digit (tl r1) else []);
            r2 = (if hasdot then dropWhile is_digit (tl r1) else r1)
        in if ip = [] \<and> fp = [] then NaN
           else (case ExponentPart r2 of
                   None \<Rightarrow> NaN
                 | Some e \<Rightarrow>
                     Finite (scale10 (of_nat (nat_of_digits ip)
                                       + of_nat (nat_of_digits fp) / 10 ^ length fp) e)))"

definition radix_digit :: "nat \<Rightarrow> char \<Rightarrow> nat option" where
  "radix_digit b c =
     (let v = (if is_digit c then Some (digit_val c)
               else if c \<in> set ''abcdef'' then Some (of_char c - 87)
               else if c \<in> set ''ABCDEF'' then Some (of_char c - 55)
               else None)
      in case v of None \<Rightarrow> None | Some d \<Rightarrow> if d < b then Some d else None)"

definition NonDecimalIntegerLiteral :: "nat \<Rightarrow> string \<Rightarrow> jsnumber" where
  "NonDecimalIntegerLiteral b ds =
     (if ds \<noteq> [] \<and> list_all (\<lambda>c. radix_digit b c \<noteq> None) ds
      then Finite (of_nat (foldl (\<lambda>a c. b * a + the (radix_digit b c)) 0 ds))
      else NaN)"

definition negate :: "jsnumber \<Rightarrow> jsnumber" where
  "negate v = (case v of Finite q \<Rightarrow> Finite (- q) | NaN \<Rightarrow> NaN
               | PosInfinity \<Rightarrow> NegInfinity | NegInfinity \<Rightarrow> PosInfinity)"

definition StringToNumber :: "string \<Rightarrow> jsnumber" where
  "StringToNumber s =
     (let t = trim s in
      case t of
        [] \<Rightarrow> Finite 0
      | c # r \<Rightarrow>
          if c = CHR ''0'' \<and> r \<noteq> [] \<and> hd r \<in> set ''xX'' then NonDecimalIntegerLiteral 16 (tl r)
          else if c = CHR ''0'' \<and> r \<noteq> [] \<and> hd r \<in> set ''oO'' then NonDecimalIntegerLiteral 8 (tl r)
          else if c = CHR ''0'' \<and> r \<noteq> [] \<and> hd r \<in> set ''bB'' then NonDecimalIntegerLiteral 2 (tl r)
          else if c = CHR ''+'' then StrUnsignedDecimalLiteral r
          else if c = CHR ''-'' then negate (StrUnsignedDecimalLiteral r)
          else StrUnsignedDecimalLiteral t)"

text \<open>\<^verbatim>\<open>Number(parts[i])\<close>: a missing array element is \<^verbatim>\<open>undefined\<close>, whose number is NaN.\<close>

definition Number :: "string option \<Rightarrow> jsnumber" where
  "Number v = (case v of None \<Rightarrow> NaN | Some s \<Rightarrow> StringToNumber s)"

subsection \<open>Splitting and decoding a key\<close>

text \<open>\<^verbatim>\<open>key.split(',')\<close>: the pieces between the commas; never an empty array.\<close>

fun split :: "char \<Rightarrow> string \<Rightarrow> string list" where
  "split c [] = [[]]"
| "split c (x # xs) =
     (if x = c then [] # split c xs
      else (case split c xs of [] \<Rightarrow> [[x]] | p # ps \<Rightarrow> (x # p) # ps))"

definition index :: "'a list \<Rightarrow> nat \<Rightarrow> 'a option" where
  "index xs i = (if i < length xs then Some (xs ! i) else None)"

text \<open>
  \<^verbatim>\<open>
  export function keyToPos(key: PositionKey): Vec3 {
    const parts = key.split(',');
    return [Number(parts[0]), Number(parts[1]), Number(parts[2])];
  }\<close>
  The function has no \<^verbatim>\<open>throw\<close> and calls nothing that throws on a string, so every
  branch of the model is a normal return (\<open>Inr\<close>); \<open>Inl\<close> is where a thrown error would be.
\<close>

datatype error = TypeError | RangeError

definition keyToPos :: "PositionKey \<Rightarrow> error + (jsnumber \<times> jsnumber \<times> jsnumber)" where
  "keyToPos key =
     (let parts = split (CHR '','') key
      in Inr (Number (index parts 0), Number (index parts 1), Number (index parts 2)))"

section \<open>Terrain generator (store/useStore.ts)\<close>

text \<open>
  \<^verbatim>\<open>
  const height = Math.floor(
    Math.sin(x * 0.15) * 2 + Math.cos(z * 0.15) * 2 + Math.sin((x + z) * 0.1) * 1.5);\<close>
  The height is written over the reals; the generator below uses it only through its value.
\<close>

definition height :: "int \<Rightarrow> int \<Rightarrow> int" where
  "height x z =
     \<lfloor>sin (of_int x * 0.15) * 2 + cos (of_int z * 0.15) * 2 + sin (of_int (x + z) * 0.1) * 1.5 :: real\<rfloor>"

definition SIZE :: int where
  "SIZE = 16"

text \<open>
  The innermost loop of the footprint:
  \<^verbatim>\<open>
  for (let y = -3; y <= height; y++) {
    let type: BlockType;
    if (y === height) type = 'grass';
    else if (y >= height - 2) type = 'dirt';
    else type = 'stone';
    blocks[posKey(x, y, z)] = type;
  }\<close>
\<close>

definition fill_column :: "int \<Rightarrow> int \<Rightarrow> Blocks \<Rightarrow> Blocks" where
  "fill_column x z blocks =
     (let h = height x z
      in fold (\<lambda>y b. b(posKey x y z \<mapsto> (if y = h then Grass else if y \<ge> h - 2 then Dirt else Stone)))
           [-3..h] blocks)"

definition trees :: "(int \<times> int \<times> int) list" where
  "trees = [(3, 0, 4), (-5, 0, -7), (10, 0, -3), (-8, 0, 12), (6, 0, -10)]"

text \<open>
  One tree:
  \<^verbatim>\<open>
  let groundY = 10;
  for (let y = 10; y >= -3; y--) {
    if (blocks[posKey(tx, y, tz)] !== undefined) { groundY = y; break; }
  }
  for (let dy = 1; dy <= 4; dy++) {
    blocks[posKey(tx, groundY + dy, tz)] = 'wood';
  }\<close>
\<close>

definition plant_tree :: "int \<times> int \<times> int \<Rightarrow> Blocks \<Rightarrow> Blocks" where
  "plant_tree t blocks =
     (case t of (tx, _, tz) \<Rightarrow>
        let groundY = (case find (\<lambda>y. blocks (posKey tx y tz) \<noteq> None) (rev [-3..10]) of
                         Some y \<Rightarrow> y
                       | None \<Rightarrow> 10)
        in fold (\<lambda>dy b. b(posKey tx (groundY + dy) tz \<mapsto> Wood)) [1..4] blocks)"

definition generateTerrain :: Blocks where
  "generateTerrain =
     (let blocks = fold (\<lambda>x b. fold (\<lambda>z b. fill_column x z b) [- SIZE..SIZE] b) [- SIZE..SIZE] Map.empty
      in fold plant_tree trees blocks)"

section \<open>World store (store/useStore.ts)\<close>

text \<open>
  \<^verbatim>\<open>
  function overlapsPlayer(bx, by, bz, pp: Vec3): boolean {
    const [px, py, pz] = pp;
    const playerMinY = py - 0.9;
    const playerMaxY = py + 0.9;
    const blockMinY = by - 0.5;
    const blockMaxY = by + 0.5;
    if (blockMaxY <= playerMinY || blockMinY >= playerMaxY) return false;
    return Math.abs(bx - px) < 0.8 && Math.abs(bz - pz) < 0.8;
  }\<close>
\<close>

definition overlapsPlayer :: "int \<Rightarrow> int \<Rightarrow> int \<Rightarrow> Vec3 \<Rightarrow> bool" where
  "overlapsPlayer bx by bz pp =
     (case pp of (ppx, ppy, ppz) \<Rightarrow>
        let playerMinY = ppy - 0.9;
            playerMaxY = ppy + 0.9;
            blockMinY = of_int by - 0.5;
            blockMaxY = of_int by + 0.5
        in if blockMaxY \<le> playerMinY \<or> blockMinY \<ge> playerMaxY then False
           else \<bar>of_int bx - ppx\<bar> < 0.8 \<and> \<bar>of_int bz - ppz\<bar> < 0.8)"

record StoreState =
  blocks :: Blocks
  blockVersion :: int
  activeBlockType :: BlockType
  playerPosition :: Vec3

text \<open>The audio collaborator's calls (audio/sounds.ts), recorded as events.\<close>

datatype sound = PlayPlace | PlayBreak | PlayJump | PlayRespawn | PlayFootstep

text \<open>The state the store is created with.\<close>

definition useStore :: StoreState where
  "useStore = \<lparr>blocks = generateTerrain, blockVersion = 0, activeBlockType = Grass,
               playerPosition = (0, 10, 0)\<rparr>"

text \<open>
  \<^verbatim>\<open>
  addBlock: ([x, y, z]: Vec3) => {
    const state = get();
    const key = posKey(x, y, z);
    if (state.blocks[key] !== undefined) return;
    if (overlapsPlayer(x, y, z, state.playerPosition)) return;
    state.blocks[key] = state.activeBlockType;
    set({ blockVersion: state.blockVersion + 1 });
    playPlace();
  }\<close>
  The source's \<^verbatim>\<open>addBlock\<close> and \<^verbatim>\<open>removeBlock\<close> return nothing. A rejected call is the early
  \<^verbatim>\<open>return\<close>: the state is handed back as it was and no sound is played. An accepted call
  is the one that reaches the mutation, the version bump and the sound. The block type placed
  is the store's \<^verbatim>\<open>activeBlockType\<close>.
\<close>

definition addBlock :: "StoreState \<Rightarrow> Cell \<Rightarrow> StoreState \<times> sound list" where
  "addBlock state pos =
     (case pos of (x, y, z) \<Rightarrow>
        let key = posKey x y z in
        if blocks state key \<noteq> None then (state, [])
        else if overlapsPlayer x y z (playerPosition state) then (state, [])
        else (state\<lparr>blocks := (blocks state)(key \<mapsto> activeBlockType state),
                     blockVersion := blockVersion state + 1\<rparr>, [PlayPlace]))"

text \<open>
  \<^verbatim>\<open>
  removeBlock: ([x, y, z]: Vec3) => {
    const state = get();
    const key = posKey(x, y, z);
    if (state.blocks[key] === undefined) return;
    delete state.blocks[key];
    set({ blockVersion: state.blockVersion + 1 });
    playBreak();
  }\<close>
\<close>

definition removeBlock :: "StoreState \<Rightarrow> Cell \<Rightarrow> StoreState \<times> sound list" where
  "removeBlock state pos =
     (case pos of (x, y, z) \<Rightarrow>
        let key = posKey x y z in
        if blocks state key = None then (state, [])
        else (state\<lparr>blocks := (blocks state)(key := None),
                     blockVersion := blockVersion state + 1\<rparr>, [PlayBreak]))"

definition setActiveBlockType :: "StoreState \<Rightarrow> BlockType \<Rightarrow> StoreState" where
  "setActiveBlockType state type = state\<lparr>activeBlockType := type\<rparr>"

text \<open>
  \<^verbatim>\<open>
  setPlayerPosition: (pos: Vec3) => {
    const prev = get().playerPosition;
    const dx = pos[0] - prev[0];
    const dy = pos[1] - prev[1];
    const dz = pos[2] - prev[2];
    if (dx * dx + dy * dy + dz * dz > 0.25) {
      set({ playerPosition: pos });
    }
  }\<close>
\<close>

definition setPlayerPosition :: "StoreState \<Rightarrow> Vec3 \<Rightarrow> StoreState" where
  "setPlayerPosition state pos =
     (let prev = playerPosition state;
          dx = fst pos - fst prev;
          dy = fst (snd pos) - fst (snd prev);
          dz = snd (snd pos) - snd (snd prev)
      in if dx * dx + dy * dy + dz * dz > 0.25 then state\<lparr>playerPosition := pos\<rparr> else state)"

definition getBlockVersion :: "StoreState \<Rightarrow> int" where
  "getBlockVersion state = blockVersion state"

section \<open>Grid AABB collision (components/Player.tsx)\<close>

definition SPEED :: real where "SPEED = 5.5"
definition SNEAK_MUL :: real where "SNEAK_MUL = 0.35"
definition JUMP_VEL :: real where "JUMP_VEL = 8"
definition GRAVITY :: real where "GRAVITY = - 25"
definition EYE_HEIGHT :: real where "EYE_HEIGHT = 1.5"
definition PLAYER_W :: real where "PLAYER_W = 0.6"
definition PLAYER_H :: real where "PLAYER_H = 1.7"
definition HALF :: real where "HALF = PLAYER_W / 2"
definition RESPAWN_Y :: real where "RESPAWN_Y = - 20"
definition SPAWN_POS :: Vec3 where "SPAWN_POS = (0, 15, 0)"
definition SUB_DT :: real where "SUB_DT = 1 / 60"

text \<open>
  The exact box test of the inner loop, for the box \<open>minX..maxX \<times> minY..maxY \<times> minZ..maxZ\<close>
  and the block centred on the cell:
  \<^verbatim>\<open>
  maxX > bx - 0.5 && minX < bx + 0.5 &&
  maxY > by - 0.5 && minY < by + 0.5 &&
  maxZ > bz - 0.5 && minZ < bz + 0.5\<close>
\<close>

definition box_overlaps_cell ::
  "real \<Rightarrow> real \<Rightarrow> real \<Rightarrow> real \<Rightarrow> real \<Rightarrow> real \<Rightarrow> int \<Rightarrow> int \<Rightarrow> int \<Rightarrow> bool" where
  "box_overlaps_cell minX minY minZ maxX maxY maxZ bx by bz =
     (maxX > of_int bx - 0.5 \<and> minX < of_int bx + 0.5 \<and>
      maxY > of_int by - 0.5 \<and> minY < of_int by + 0.5 \<and>
      maxZ > of_int bz - 0.5 \<and> minZ < of_int bz + 0.5)"

text \<open>
  \<^verbatim>\<open>
  function collides(minX, minY, minZ, maxX, maxY, maxZ, blocks): boolean {
    const bx0 = Math.ceil(minX - 0.5 + 0.001);
    const bx1 = Math.floor(maxX + 0.5 - 0.001);
    ... (likewise by0, by1, bz0, bz1)
    for (let bx = bx0; bx <= bx1; bx++)
      for (let by = by0; by <= by1; by++)
        for (let bz = bz0; bz <= bz1; bz++)
          if (blocks[fastPosKey(bx, by, bz)] !== undefined)
            if (<the exact box test>) return true;
    return false;
  }\<close>
  \<open>list_ex\<close> over the ranges stops at the first hit, as the loops do.
\<close>

definition collides ::
  "real \<Rightarrow> real \<Rightarrow> real \<Rightarrow> real \<Rightarrow> real \<Rightarrow> real \<Rightarrow> Blocks \<Rightarrow> bool" where
  "collides minX minY minZ maxX maxY maxZ blks =
     (let bx0 = \<lceil>minX - 0.5 + 0.001\<rceil>;
          bx1 = \<lfloor>maxX + 0.5 - 0.001\<rfloor>;
          by0 = \<lceil>minY - 0.5 + 0.001\<rceil>;
          by1 = \<lfloor>maxY + 0.5 - 0.001\<rfloor>;
          bz0 = \<lceil>minZ - 0.5 + 0.001\<rceil>;
          bz1 = \<lfloor>maxZ + 0.5 - 0.001\<rfloor>
      in list_ex (\<lambda>bx. list_ex (\<lambda>by. list_ex (\<lambda>bz.
           blks (fastPosKey bx by bz) \<noteq> None \<and>
           box_overlaps_cell minX minY minZ maxX maxY maxZ bx by bz)
         [bz0..bz1]) [by0..by1]) [bx0..bx1])"

section \<open>Player kinematics (components/Player.tsx)\<close>

text \<open>
  The mutable refs of the component (\<^verbatim>\<open>px\<close>, \<^verbatim>\<open>py\<close>, \<^verbatim>\<open>pz\<close>, \<^verbatim>\<open>vy\<close>, \<^verbatim>\<open>onGround\<close>)
  and the two frame-local variables \<^verbatim>\<open>vx\<close>, \<^verbatim>\<open>vz\<close> that the sub-steps zero when blocked.
  \<^verbatim>\<open>vx\<close> and \<^verbatim>\<open>vz\<close> are computed from the camera and the keys before the integration; the
  model takes them as given.
\<close>

record Frame =
  px :: real
  py :: real
  pz :: real
  vy :: real
  onGround :: bool
  vx :: real
  vz :: real

text \<open>
  The player box of the header comment of Player.tsx, anchored at the feet:
  \<open>[px - HALF, px + HALF] \<times> [py, py + PLAYER_H] \<times> [pz - HALF, pz + HALF]\<close>.
\<close>

definition player_overlaps_cell :: "Vec3 \<Rightarrow> int \<Rightarrow> int \<Rightarrow> int \<Rightarrow> bool" where
  "player_overlaps_cell p bx by bz =
     (case p of (x, y, z) \<Rightarrow>
        box_overlaps_cell (x - HALF) y (z - HALF) (x + HALF) (y + PLAYER_H) (z + HALF) bx by bz)"

definition collides_at :: "Blocks \<Rightarrow> Vec3 \<Rightarrow> bool" where
  "collides_at blks p =
     (case p of (x, y, z) \<Rightarrow>
        collides (x - HALF) y (z - HALF) (x + HALF) (y + PLAYER_H) (z + HALF) blks)"

definition feet :: "Frame \<Rightarrow> Vec3" where
  "feet f = (px f, py f, pz f)"

text \<open>
  Section 2 of the frame callback:
  \<^verbatim>\<open>
  if (k.jump && onGround.current) { vy.current = JUMP_VEL; onGround.current = false; playJump(); }
  vy.current += GRAVITY * dt;
  if (vy.current < -40) vy.current = -40;\<close>
\<close>

definition gravity_jump :: "bool \<Rightarrow> real \<Rightarrow> Frame \<Rightarrow> Frame" where
  "gravity_jump jump dt f =
     (let f1 = (if jump \<and> onGround f then f\<lparr>vy := JUMP_VEL, onGround := False\<rparr> else f);
          v = vy f1 + GRAVITY * dt
      in f1\<lparr>vy := (if v < - 40 then - 40 else v)\<rparr>)"

text \<open>
  The defensive loop after the snap:
  \<^verbatim>\<open>
  while (collides(minX, py.current, minZ, maxX, py.current + PLAYER_H, maxZ, blocks)) {
    py.current += 1;
  }\<close>
  It has no iteration cap, so the model lets it not return (\<open>None\<close>).
\<close>

partial_function (option) unstick ::
  "Blocks \<Rightarrow> real \<Rightarrow> real \<Rightarrow> real \<Rightarrow> real \<Rightarrow> real \<Rightarrow> real option" where
  "unstick blks minX minZ maxX maxZ y =
     (if collides minX y minZ maxX (y + PLAYER_H) maxZ blks
      then unstick blks minX minZ maxX maxZ (y + 1)
      else Some y)"

text \<open>The Y block of a sub-step.\<close>

definition moveY :: "Blocks \<Rightarrow> real \<Rightarrow> Frame \<Rightarrow> Frame option" where
  "moveY blks step f =
     (let newY = py f + vy f * step;
          minX = px f - HALF;
          maxX = px f + HALF;
          minZ = pz f - HALF;
          maxZ = pz f + HALF
      in if collides minX newY minZ maxX (newY + PLAYER_H) maxZ blks then
           (if vy f \<le> 0 then
              (let byTest = \<lceil>newY - 0.5 + 0.001\<rceil>
               in case unstick blks minX minZ maxX maxZ (of_int byTest + 0.5) of
                    None \<Rightarrow> None
                  | Some y \<Rightarrow> Some (f\<lparr>py := y, onGround := True, vy := 0\<rparr>))
            else Some (f\<lparr>vy := 0\<rparr>))
         else Some (f\<lparr>py := newY,
                      onGround := collides minX (newY - 0.02) minZ maxX (newY + 0.02) maxZ blks\<rparr>))"

text \<open>The X and Z blocks of a sub-step.\<close>

definition moveX :: "Blocks \<Rightarrow> real \<Rightarrow> Frame \<Rightarrow> Frame" where
  "moveX blks step f =
     (let newX = px f + vx f * step
      in if collides (newX - HALF) (py f) (pz f - HALF)
                     (newX + HALF) (py f + PLAYER_H) (pz f + HALF) blks
         then f\<lparr>vx := 0\<rparr>
         else f\<lparr>px := newX\<rparr>)"

definition moveZ :: "Blocks \<Rightarrow> real \<Rightarrow> Frame \<Rightarrow> Frame" where
  "moveZ blks step f =
     (let newZ = pz f + vz f * step
      in if collides (px f - HALF) (py f) (newZ - HALF)
                     (px f + HALF) (py f + PLAYER_H) (newZ + HALF) blks
         then f\<lparr>vz := 0\<rparr>
         else f\<lparr>pz := newZ\<rparr>)"

definition substep :: "Blocks \<Rightarrow> real \<Rightarrow> Frame \<Rightarrow> Frame option" where
  "substep blks step f =
     (case moveY blks step f of
        None \<Rightarrow> None
      | Some f1 \<Rightarrow> Some (moveZ blks step (moveX blks step f1)))"

text \<open>
  \<^verbatim>\<open>
  let remaining = dt;
  while (remaining > 0.0001) {
    const step = Math.min(remaining, SUB_DT);
    remaining -= step;
    ... Y, X, Z ...
  }\<close>
\<close>

function integrate :: "Blocks \<Rightarrow> real \<Rightarrow> Frame \<Rightarrow> Frame option" where
  "integrate blks remaining f =
     (if remaining > 0.0001 then
        (case substep blks (min remaining SUB_DT) f of
           None \<Rightarrow> None
         | Some f' \<Rightarrow> integrate blks (remaining - min remaining SUB_DT) f')
      else Some f)"
  by pat_completeness auto
termination
proof (relation "measure (\<lambda>(blks, remaining, f). nat \<lceil>remaining * 60\<rceil>)", goal_cases)
  case 1
  show ?case by (rule wf_measure)
next
  case (2 blks remaining f f')
  then have r: "0.0001 < remaining" by simp
  then have pos: "0 < \<lceil>remaining * 60\<rceil>" by simp
  have "\<lceil>(remaining - min remaining SUB_DT) * 60\<rceil> < \<lceil>remaining * 60\<rceil>"
  proof (cases "remaining \<le> SUB_DT")
    case True
    then have "(remaining - min remaining SUB_DT) * 60 = 0" by simp
    with pos show ?thesis by simp
  next
    case False
    then have "(remaining - min remaining SUB_DT) * 60 = remaining * 60 - 1"
      by (simp add: SUB_DT_def min_def algebra_simps)
    then show ?thesis by simp
  qed
  with pos have "nat \<lceil>(remaining - min remaining SUB_DT) * 60\<rceil> < nat \<lceil>remaining * 60\<rceil>"
    by simp
  then show ?case by (simp only: in_measure prod.case)
qed

declare integrate.simps [simp del]

text \<open>Sections 2 and 3 of the frame callback: the clamped frame time, gravity and jump, then
  the sub-stepped integration.\<close>

definition movement :: "Blocks \<Rightarrow> real \<Rightarrow> bool \<Rightarrow> Frame \<Rightarrow> Frame option" where
  "movement blks rawDt jump f =
     (let dt = min rawDt 0.1 in integrate blks dt (gravity_jump jump dt f))"

text \<open>
  Section 4, the respawn check:
  \<^verbatim>\<open>
  if (py.current < RESPAWN_Y) {
    px.current = SPAWN_POS.x; py.current = SPAWN_POS.y; pz.current = SPAWN_POS.z;
    vy.current = 0; onGround.current = false; playRespawn();
  }\<close>
\<close>

definition respawn_check :: "Frame \<Rightarrow> Frame \<times> sound list" where
  "respawn_check f =
     (if py f < RESPAWN_Y
      then (f\<lparr>px := fst SPAWN_POS, py := fst (snd SPAWN_POS), pz := snd (snd SPAWN_POS),
               vy := 0, onGround := False\<rparr>, [PlayRespawn])
      else (f, []))"

text \<open>
  Sections 2 to 4 of one frame, on the player's state. The sections after them (footstep
  sound, camera, the throttled \<^verbatim>\<open>setPlayerPosition\<close>) do not write the player's state.
\<close>

definition useFrame :: "Blocks \<Rightarrow> real \<Rightarrow> bool \<Rightarrow> Frame \<Rightarrow> (Frame \<times> sound list) option" where
  "useFrame blks rawDt jump f =
     (case movement blks rawDt jump f of
        None \<Rightarrow> None
      | Some f' \<Rightarrow> Some (respawn_check f'))"

text \<open>
  What the claims speak of: the player box is clear of the store when it overlaps the volume
  of no occupied cell.
\<close>

definition clear_of_blocks :: "Blocks \<Rightarrow> Vec3 \<Rightarrow> bool" where
  "clear_of_blocks blks p =
     (\<forall>bx by bz. blks (posKey bx by bz) \<noteq> None \<longrightarrow> \<not> player_overlaps_cell p bx by bz)"

section \<open>Predicates and inputs used in the statements\<close>

text \<open>
  The box overlaps the cell's block by at least \<open>eps\<close> along every axis. With \<open>eps = 0.001\<close>
  this is what the candidate ranges of \<^verbatim>\<open>collides\<close> let through.
\<close>

definition box_overlaps_cell_by ::
  "real \<Rightarrow> real \<Rightarrow> real \<Rightarrow> real \<Rightarrow> real \<Rightarrow> real \<Rightarrow> real \<Rightarrow> int \<Rightarrow> int \<Rightarrow> int \<Rightarrow> bool" where
  "box_overlaps_cell_by eps minX minY minZ maxX maxY maxZ bx by bz =
     (maxX - (of_int bx - 0.5) \<ge> eps \<and> (of_int bx + 0.5) - minX \<ge> eps \<and>
      maxY - (of_int by - 0.5) \<ge> eps \<and> (of_int by + 0.5) - minY \<ge> eps \<and>
      maxZ - (of_int bz - 0.5) \<ge> eps \<and> (of_int bz + 0.5) - minZ \<ge> eps)"

definition player_overlaps_cell_by :: "real \<Rightarrow> Vec3 \<Rightarrow> int \<Rightarrow> int \<Rightarrow> int \<Rightarrow> bool" where
  "player_overlaps_cell_by eps p bx by bz =
     (case p of (x, y, z) \<Rightarrow>
        box_overlaps_cell_by eps (x - HALF) y (z - HALF) (x + HALF) (y + PLAYER_H) (z + HALF) bx by bz)"

definition clear_of_blocks_by :: "real \<Rightarrow> Blocks \<Rightarrow> Vec3 \<Rightarrow> bool" where
  "clear_of_blocks_by eps blks p =
     (\<forall>bx by bz. blks (posKey bx by bz) \<noteq> None \<longrightarrow> \<not> player_overlaps_cell_by eps p bx by bz)"

text \<open>A key is well formed when it is the encoding of an integer coordinate triple.\<close>

definition encodes_cell :: "PositionKey \<Rightarrow> bool" where
  "encodes_cell key = (\<exists>x y z. key = posKey x y z)"

text \<open>A small store: one stone block at \<open>(5, 10, 5)\<close>, the player's position as the store starts.\<close>

definition demo_store :: StoreState where
  "demo_store = \<lparr>blocks = Map.empty(posKey 5 10 5 \<mapsto> Stone), blockVersion = 7,
                  activeBlockType = Wood, playerPosition = (0, 10, 0)\<rparr>"

text \<open>Two player states at the respawn check: below the void threshold, and exactly on it.\<close>

definition fallen :: Frame where
  "fallen = \<lparr>px = 3, py = - 20.5, pz = 4, vy = - 40, onGround = False, vx = 1, vz = 0\<rparr>"
definition standing :: Frame where
  "standing = \<lparr>px = 3, py = - 20, pz = 4, vy = 0, onGround = True, vx = 1, vz = 0\<rparr>"

text \<open>
  A player standing on the block \<open>(1, 0, 0)\<close>, 0.0495 away from the wall block \<open>(0, 1, 0)\<close>,
  walking towards the wall at speed 5 during a frame of 10 ms.
\<close>

definition wall_blocks :: Blocks where
  "wall_blocks = Map.empty(posKey 1 0 0 \<mapsto> Stone, posKey 0 1 0 \<mapsto> Stone)"

definition wall_start :: Frame where
  "wall_start = \<lparr>px = 0.8495, py = 0.5, pz = 0, vy = 0, onGround = True, vx = - 5, vz = 0\<rparr>"

definition wall_end :: Frame where
  "wall_end = \<lparr>px = 0.7995, py = 0.5, pz = 0, vy = 0, onGround = True, vx = - 5, vz = 0\<rparr>"

text \<open>The store once the player's spawn position \<open>(0, 15, 0)\<close> has been synced into it.\<close>

definition spawn_store :: StoreState where
  "spawn_store = setPlayerPosition useStore (0, 15, 0)"

section \<open>Codec lemmas\<close>

lemma below_ten: "(d :: nat) < 10 \<Longrightarrow> d \<in> {0, 1, 2, 3, 4, 5, 6, 7, 8, 9}"
  by auto

lemma digit_val_digit_char: "d < 10 \<Longrightarrow> digit_val (digit_char d) = d"
  by (drule below_ten) (auto simp: digit_val_def digit_char_def)

lemma is_digit_digit_char: "is_digit (digit_char d)"
proof -
  have "d mod 10 < 10" by simp
  then have "d mod 10 \<in> {0, 1, 2, 3, 4, 5, 6, 7, 8, 9}" by (rule below_ten)
  then show ?thesis by (auto simp: is_digit_def digit_char_def)
qed

lemma digits_all: "list_all is_digit (digits n)"
  by (induction n rule: digits.induct) (subst digits.simps, simp add: is_digit_digit_char)

lemma digits_nonempty: "digits n \<noteq> []"
  by (subst digits.simps) simp

lemma nat_of_digits_snoc: "nat_of_digits (ds @ [c]) = 10 * nat_of_digits ds + digit_val c"
  by (simp add: nat_of_digits_def)

lemma nat_of_digits_digits: "nat_of_digits (digits n) = n"
proof (induction n rule: digits.induct)
  case (1 n)
  show ?case
  proof (cases "n < 10")
    case True
    then show ?thesis
      by (subst digits.simps) (simp add: nat_of_digits_def digit_val_digit_char)
  next
    case False
    with 1 have "nat_of_digits (digits (n div 10)) = n div 10" by simp
    with False show ?thesis
      by (subst digits.simps) (simp add: nat_of_digits_snoc digit_val_digit_char)
  qed
qed

lemma is_digit_cases: "is_digit c \<Longrightarrow> c \<noteq> CHR '','' \<and> c \<noteq> CHR ''-'' \<and> c \<noteq> CHR ''+'' \<and> c \<noteq> CHR ''I'' \<and> \<not> is_ws c
   \<and> c \<notin> set ''xXoObB''"
  by (auto simp: is_digit_def is_ws_def)

lemma digits_set: "c \<in> set (digits n) \<Longrightarrow> is_digit c"
  using digits_all [of n] by (simp add: list_all_iff)

lemma comma_notin_NumberToString: "CHR '','' \<notin> set (NumberToString n)"
  using is_digit_cases digits_set by (auto simp: NumberToString_def)

lemma split_no_sep: "c \<notin> set a \<Longrightarrow> split c a = [a]"
  by (induction a) auto

lemma split_append: "c \<notin> set a \<Longrightarrow> split c (a @ c # rest) = a # split c rest"
  by (induction a) auto

lemma split_posKey:
  "split (CHR '','') (posKey x y z) = [NumberToString x, NumberToString y, NumberToString z]"
  by (simp add: posKey_def split_append split_no_sep comma_notin_NumberToString)

lemma trim_id: "s \<noteq> [] \<Longrightarrow> \<not> is_ws (hd s) \<Longrightarrow> \<not> is_ws (last s) \<Longrightarrow> trim s = s"
proof -
  assume a: "s \<noteq> []" "\<not> is_ws (hd s)" "\<not> is_ws (last s)"
  have 1: "dropWhile is_ws s = s" using a by (cases s) auto
  have "hd (rev s) = last s" by (simp add: hd_rev)
  then have "\<not> is_ws (hd (rev s))" using a by simp
  then have 2: "dropWhile is_ws (rev s) = rev s" by (simp only: dropWhile_eq_self_iff) simp
  show ?thesis by (simp add: trim_def 1 2)
qed

lemma digits_hd: "is_digit (hd (digits n))"
  using digits_set [of "hd (digits n)" n] digits_nonempty [of n] by simp

lemma digits_last: "is_digit (last (digits n))"
  using digits_set [of "last (digits n)" n] digits_nonempty [of n] by simp

lemma StrUnsignedDecimalLiteral_digits:
  "StrUnsignedDecimalLiteral (digits n) = Finite (of_nat n)"
proof -
  have all: "\<forall>c\<in>set (digits n). is_digit c" using digits_set by blast
  have tw: "takeWhile is_digit (digits n) = digits n" using all by (simp add: takeWhile_eq_all_conv)
  have dw: "dropWhile is_digit (digits n) = []" using all by simp
  have ne: "digits n \<noteq> ''Infinity''"
    using digits_hd [of n] by (auto simp: is_digit_def)
  show ?thesis
    by (simp add: StrUnsignedDecimalLiteral_def tw dw ne digits_nonempty ExponentPart_def
        scale10_def nat_of_digits_digits Let_def)
       (simp add: nat_of_digits_def)
qed

lemma trim_digits: "trim (digits n) = digits n"
  using digits_hd [of n] digits_last [of n] is_digit_cases
  by (intro trim_id) (auto simp: digits_nonempty)

lemma StringToNumber_digits: "StringToNumber (digits n) = Finite (of_nat n)"
proof -
  obtain c r where cr: "digits n = c # r" using digits_nonempty [of n] by (cases "digits n") auto
  have c: "is_digit c" using digits_hd [of n] cr by simp
  have "r \<noteq> [] \<Longrightarrow> is_digit (hd r)" using digits_set [of "hd r" n] cr by simp
  then have r: "r \<noteq> [] \<Longrightarrow> hd r \<notin> set ''xXoObB''" using is_digit_cases by blast
  have pm: "c \<noteq> CHR ''+''" "c \<noteq> CHR ''-''" using c is_digit_cases by blast+
  have tr: "trim (c # r) = c # r" using trim_digits [of n] cr by simp
  show ?thesis
    using r pm StrUnsignedDecimalLiteral_digits [of n]
    by (auto simp: StringToNumber_def tr cr)
qed

lemma StringToNumber_neg_digits: "StringToNumber (CHR ''-'' # digits n) = Finite (- of_nat n)"
proof -
  have "trim (CHR ''-'' # digits n) = CHR ''-'' # digits n"
    using digits_last [of n] is_digit_cases
    by (intro trim_id) (auto simp: digits_nonempty is_ws_def)
  then show ?thesis
    by (simp add: StringToNumber_def StrUnsignedDecimalLiteral_digits negate_def)
qed

lemma StringToNumber_NumberToString: "StringToNumber (NumberToString n) = Finite (of_int n)"
  by (simp add: NumberToString_def StringToNumber_digits StringToNumber_neg_digits)

lemma NumberToString_inj: "NumberToString m = NumberToString n \<Longrightarrow> m = n"
proof -
  assume "NumberToString m = NumberToString n"
  then have "StringToNumber (NumberToString m) = StringToNumber (NumberToString n)" by simp
  then show "m = n" by (simp add: StringToNumber_NumberToString)
qed

lemma posKey_inj: "posKey x y z = posKey x' y' z' \<longleftrightarrow> x = x' \<and> y = y' \<and> z = z'"
proof
  assume "posKey x y z = posKey x' y' z'"
  then have "split (CHR '','') (posKey x y z) = split (CHR '','') (posKey x' y' z')" by simp
  then show "x = x' \<and> y = y' \<and> z = z'"
    by (simp add: split_posKey) (blast dest: NumberToString_inj)
qed simp

lemma fastPosKey_posKey: "fastPosKey x y z = posKey x y z"
  by (simp add: fastPosKey_def posKey_def)

section \<open>C5: the codec round trip\<close>

text \<open>
  C5. For all integer triples \<open>(x, y, z)\<close>, decoding the encoded key returns the original
  coordinates: \<^verbatim>\<open>keyToPos(posKey(x, y, z)) == [x, y, z]\<close>. The decoder returns normally, and
  each component is the finite number equal to the coordinate.
\<close>

theorem keyToPos_posKey:
  "keyToPos (posKey x y z) = Inr (Finite (of_int x), Finite (of_int y), Finite (of_int z))"
  by (simp add: keyToPos_def split_posKey index_def Number_def StringToNumber_NumberToString)

section \<open>C4: removing a block\<close>

text \<open>
  C4. For every occupied position \<open>p\<close>, \<^verbatim>\<open>remove(p)\<close> succeeds, after which \<^verbatim>\<open>get(p)\<close> is
  empty and the version counter is exactly one greater than before; \<^verbatim>\<open>remove(p)\<close> on an
  already-empty (including never-populated) position is rejected, performs no mutation, and
  leaves the version counter unchanged. The rejected call hands the whole state back as it was
  and plays no sound.
\<close>

theorem removeBlock_spec:
  "(blocks s (posKey x y z) \<noteq> None \<longrightarrow>
      blocks (fst (removeBlock s (x, y, z))) (posKey x y z) = None \<and>
      blockVersion (fst (removeBlock s (x, y, z))) = blockVersion s + 1 \<and>
      snd (removeBlock s (x, y, z)) = [PlayBreak]) \<and>
   (blocks s (posKey x y z) = None \<longrightarrow> removeBlock s (x, y, z) = (s, []))"
  by (auto simp: removeBlock_def Let_def)

theorem removeBlock_spec_witness:
  "blocks demo_store (posKey 5 10 5) \<noteq> None \<and>
   blocks (fst (removeBlock demo_store (5, 10, 5))) (posKey 5 10 5) = None \<and>
   blockVersion (fst (removeBlock demo_store (5, 10, 5))) = 8 \<and>
   snd (removeBlock demo_store (5, 10, 5)) = [PlayBreak] \<and>
   blocks demo_store (posKey 1 2 3) = None \<and>
   removeBlock demo_store (1, 2, 3) = (demo_store, [])"
  using removeBlock_spec [of demo_store 5 10 5] removeBlock_spec [of demo_store 1 2 3]
  by (simp add: demo_store_def posKey_inj)

lemma sqrt_quarter: "sqrt (1 / 4) = (1 / 2 :: real)"
proof -
  have "sqrt ((1 / 2)\<^sup>2) = (1 / 2 :: real)" by (simp only: real_sqrt_abs)
  then show ?thesis by (simp add: power2_eq_square)
qed

lemma sqrt_nine: "sqrt 9 = (3 :: real)"
proof -
  have "sqrt (3\<^sup>2) = (3 :: real)" by (simp only: real_sqrt_abs)
  then show ?thesis by simp
qed

section \<open>C10: the throttled player position of the store\<close>

text \<open>
  C10. \<^verbatim>\<open>setPlayerPosition(pos)\<close> updates the stored position only when the squared distance
  from the stored position exceeds \<open>0.25\<close>, that is when the displacement is greater than
  \<open>0.5\<close>; for a smaller displacement the store is left unchanged, so the overlap guard of
  \<^verbatim>\<open>addBlock\<close> still decides on the old position.
\<close>

theorem setPlayerPosition_spec:
  "(sqrt ((x - fst (playerPosition s))\<^sup>2 + (y - fst (snd (playerPosition s)))\<^sup>2
          + (z - snd (snd (playerPosition s)))\<^sup>2) > 0.5 \<longrightarrow>
      setPlayerPosition s (x, y, z) = s\<lparr>playerPosition := (x, y, z)\<rparr>) \<and>
   (sqrt ((x - fst (playerPosition s))\<^sup>2 + (y - fst (snd (playerPosition s)))\<^sup>2
          + (z - snd (snd (playerPosition s)))\<^sup>2) \<le> 0.5 \<longrightarrow>
      setPlayerPosition s (x, y, z) = s \<and>
      addBlock (setPlayerPosition s (x, y, z)) (bx, by, bz) =
        (if blocks s (posKey bx by bz) = None \<and> \<not> overlapsPlayer bx by bz (playerPosition s)
         then (s\<lparr>blocks := (blocks s)(posKey bx by bz \<mapsto> activeBlockType s),
                  blockVersion := blockVersion s + 1\<rparr>, [PlayPlace])
         else (s, [])))"
proof -
  define d2 where "d2 = (x - fst (playerPosition s))\<^sup>2 + (y - fst (snd (playerPosition s)))\<^sup>2
          + (z - snd (snd (playerPosition s)))\<^sup>2"
  have nn: "0 \<le> d2" by (simp add: d2_def)
  have h: "sqrt ((1 / 2)\<^sup>2) = (1 / 2 :: real)"
    by (simp only: real_sqrt_abs)
  have "sqrt ((1 / 2)\<^sup>2) < sqrt d2 \<longleftrightarrow> (1 / 2)\<^sup>2 < d2"
    by (rule real_sqrt_less_iff)
  then have "sqrt d2 > 0.5 \<longleftrightarrow> d2 > 0.25"
    by (simp only: h) (simp add: power2_eq_square)
  then have a: "d2 > 0.25 \<longleftrightarrow> sqrt d2 > 0.5" by simp
  have b: "setPlayerPosition s (x, y, z) = (if d2 > 0.25 then s\<lparr>playerPosition := (x, y, z)\<rparr> else s)"
    by (simp add: setPlayerPosition_def d2_def power2_eq_square Let_def)
  show ?thesis
    unfolding d2_def [symmetric]
    using a b by (auto simp: addBlock_def Let_def)
qed

theorem setPlayerPosition_spec_witness:
  "sqrt ((3 - fst (playerPosition demo_store))\<^sup>2 + (10 - fst (snd (playerPosition demo_store)))\<^sup>2
          + (0 - snd (snd (playerPosition demo_store)))\<^sup>2) > 0.5 \<and>
   setPlayerPosition demo_store (3, 10, 0) = demo_store\<lparr>playerPosition := (3, 10, 0)\<rparr> \<and>
   sqrt ((0.5 - fst (playerPosition demo_store))\<^sup>2 + (10 - fst (snd (playerPosition demo_store)))\<^sup>2
          + (0 - snd (snd (playerPosition demo_store)))\<^sup>2) \<le> 0.5 \<and>
   setPlayerPosition demo_store (0.5, 10, 0) = demo_store \<and>
   player_overlaps_cell (0.5, 10, 0) 1 10 0 \<and>
   snd (addBlock (setPlayerPosition demo_store (0.5, 10, 0)) (1, 10, 0)) = [PlayPlace]"
proof -
  have a: "sqrt ((3 - fst (playerPosition demo_store))\<^sup>2 + (10 - fst (snd (playerPosition demo_store)))\<^sup>2
          + (0 - snd (snd (playerPosition demo_store)))\<^sup>2) > 0.5"
    by (simp add: demo_store_def sqrt_nine)
  have b: "sqrt ((0.5 - fst (playerPosition demo_store))\<^sup>2 + (10 - fst (snd (playerPosition demo_store)))\<^sup>2
          + (0 - snd (snd (playerPosition demo_store)))\<^sup>2) \<le> 0.5"
    by (simp add: demo_store_def power2_eq_square sqrt_quarter)
  have c: "player_overlaps_cell (0.5, 10, 0) 1 10 0"
    by (simp add: player_overlaps_cell_def box_overlaps_cell_def HALF_def PLAYER_W_def PLAYER_H_def)
  have d: "blocks demo_store (posKey 1 10 0) = None \<and> \<not> overlapsPlayer 1 10 0 (playerPosition demo_store)"
    by (simp add: demo_store_def posKey_inj overlapsPlayer_def)
  from a setPlayerPosition_spec [of 3 demo_store 10 0]
  have e: "setPlayerPosition demo_store (3, 10, 0) = demo_store\<lparr>playerPosition := (3, 10, 0)\<rparr>"
    by blast
  from b setPlayerPosition_spec [of "0.5" demo_store 10 0 1 10 0]
  have f: "setPlayerPosition demo_store (0.5, 10, 0) = demo_store"
    and "addBlock (setPlayerPosition demo_store (0.5, 10, 0)) (1, 10, 0) =
        (if blocks demo_store (posKey 1 10 0) = None \<and> \<not> overlapsPlayer 1 10 0 (playerPosition demo_store)
         then (demo_store\<lparr>blocks := (blocks demo_store)(posKey 1 10 0 \<mapsto> activeBlockType demo_store),
                  blockVersion := blockVersion demo_store + 1\<rparr>, [PlayPlace])
         else (demo_store, []))"
    by blast+
  with d have g: "snd (addBlock (setPlayerPosition demo_store (0.5, 10, 0)) (1, 10, 0)) = [PlayPlace]"
    by (simp only: if_True snd_conv simp_thms)
  from a e b f c g show ?thesis by blast
qed

section \<open>Collision lemmas\<close>

lemma ceiling_one_over_numeral: "\<lceil>1 / numeral b :: real\<rceil> = 1"
  by (rule ceiling_unique) simp_all

lemma candidate_range:
  "(\<lceil>lo - 0.5 + 0.001 :: real\<rceil> \<le> b \<and> b \<le> \<lfloor>hi + 0.5 - 0.001 :: real\<rfloor>) \<longleftrightarrow>
   (hi - (of_int b - 0.5) \<ge> 0.001 \<and> (of_int b + 0.5) - lo \<ge> 0.001)"
  by (auto simp: ceiling_le_iff le_floor_iff)

lemma collides_candidates:
  "collides minX minY minZ maxX maxY maxZ blks \<longleftrightarrow>
     (\<exists>bx by bz. blks (posKey bx by bz) \<noteq> None \<and>
        (\<lceil>minX - 0.5 + 0.001\<rceil> \<le> bx \<and> bx \<le> \<lfloor>maxX + 0.5 - 0.001\<rfloor>) \<and>
        (\<lceil>minY - 0.5 + 0.001\<rceil> \<le> by \<and> by \<le> \<lfloor>maxY + 0.5 - 0.001\<rfloor>) \<and>
        (\<lceil>minZ - 0.5 + 0.001\<rceil> \<le> bz \<and> bz \<le> \<lfloor>maxZ + 0.5 - 0.001\<rfloor>) \<and>
        box_overlaps_cell minX minY minZ maxX maxY maxZ bx by bz)"
  unfolding collides_def Let_def list_ex_iff fastPosKey_posKey set_upto Bex_def atLeastAtMost_iff
  by blast

lemma by_imp_exact:
  "box_overlaps_cell_by 0.001 minX minY minZ maxX maxY maxZ bx by bz
      \<Longrightarrow> box_overlaps_cell minX minY minZ maxX maxY maxZ bx by bz"
  by (simp add: box_overlaps_cell_by_def box_overlaps_cell_def)

lemma collides_iff:
  "collides minX minY minZ maxX maxY maxZ blks \<longleftrightarrow>
     (\<exists>bx by bz. blks (posKey bx by bz) \<noteq> None \<and>
        box_overlaps_cell_by 0.001 minX minY minZ maxX maxY maxZ bx by bz)"
proof -
  have "\<And>bx by bz.
     ((\<lceil>minX - 0.5 + 0.001\<rceil> \<le> bx \<and> bx \<le> \<lfloor>maxX + 0.5 - 0.001\<rfloor>) \<and>
      (\<lceil>minY - 0.5 + 0.001\<rceil> \<le> by \<and> by \<le> \<lfloor>maxY + 0.5 - 0.001\<rfloor>) \<and>
      (\<lceil>minZ - 0.5 + 0.001\<rceil> \<le> bz \<and> bz \<le> \<lfloor>maxZ + 0.5 - 0.001\<rfloor>) \<and>
      box_overlaps_cell minX minY minZ maxX maxY maxZ bx by bz) \<longleftrightarrow>
     box_overlaps_cell_by 0.001 minX minY minZ maxX maxY maxZ bx by bz"
    unfolding candidate_range
    by (simp add: box_overlaps_cell_by_def box_overlaps_cell_def) linarith
  then show ?thesis
    unfolding collides_candidates by simp
qed

lemma collides_at_iff:
  "collides_at blks p \<longleftrightarrow>
     (\<exists>bx by bz. blks (posKey bx by bz) \<noteq> None \<and> player_overlaps_cell_by 0.001 p bx by bz)"
  by (cases p) (simp add: collides_at_def player_overlaps_cell_by_def collides_iff)

lemma clear_imp_not_collides_at: "clear_of_blocks blks p \<Longrightarrow> \<not> collides_at blks p"
proof
  assume c: "clear_of_blocks blks p" and "collides_at blks p"
  then obtain bx "by" bz where occ: "blks (posKey bx by bz) \<noteq> None"
    and d: "player_overlaps_cell_by 0.001 p bx by bz"
    unfolding collides_at_iff by blast
  from d have "player_overlaps_cell p bx by bz"
    by (cases p) (simp add: player_overlaps_cell_by_def player_overlaps_cell_def by_imp_exact)
  with c occ show False unfolding clear_of_blocks_def by blast
qed

lemma occupied_bounded:
  assumes "finite (dom blks)"
  shows "\<exists>B. \<forall>bx by bz. blks (posKey bx by bz) \<noteq> None \<longrightarrow> by \<le> B"
proof -
  define C where "C = (\<lambda>(x, y, z). posKey x y z) -` dom blks"
  define M where "M = Max ((\<lambda>(x, y, z). y) ` C)"
  have "inj (\<lambda>(x, y, z). posKey x y z)"
    by (auto simp: inj_on_def posKey_inj)
  with assms have "finite C" unfolding C_def by (rule finite_vimageI)
  then have fin: "finite ((\<lambda>(x, y, z). y) ` C)" by (rule finite_imageI)
  have "\<forall>bx by bz. blks (posKey bx by bz) \<noteq> None \<longrightarrow> by \<le> M"
  proof (intro allI impI)
    fix bx "by" bz assume "blks (posKey bx by bz) \<noteq> None"
    then have "(bx, by, bz) \<in> C" by (simp add: C_def dom_def)
    moreover have "by = (\<lambda>(x, y, z). y) (bx, by, bz)" by simp
    ultimately have "by \<in> (\<lambda>(x, y, z). y) ` C" by (rule rev_image_eqI)
    with fin show "by \<le> M" unfolding M_def by (rule Max_ge)
  qed
  then show ?thesis by (rule exI)
qed

lemma unstick_returns:
  assumes bound: "\<forall>bx by bz. blks (posKey bx by bz) \<noteq> None \<longrightarrow> by \<le> B"
  shows "\<exists>y'. unstick blks minX minZ maxX maxZ y = Some y' \<and>
               \<not> collides minX y' minZ maxX (y' + PLAYER_H) maxZ blks"
proof (induction "nat \<lceil>of_int B + 1 - y\<rceil>" arbitrary: y rule: less_induct)
  case less
  show ?case
  proof (cases "collides minX y minZ maxX (y + PLAYER_H) maxZ blks")
    case False
    then show ?thesis by (subst unstick.simps) simp
  next
    case True
    then obtain bx "by" bz where occ: "blks (posKey bx by bz) \<noteq> None"
      and d: "box_overlaps_cell_by 0.001 minX y minZ maxX (y + PLAYER_H) maxZ bx by bz"
      unfolding collides_iff by blast
    from occ bound have "by \<le> B" by blast
    then have "(of_int by :: real) \<le> of_int B" by simp
    moreover from d have "y \<le> of_int by + 0.499" by (simp add: box_overlaps_cell_by_def)
    ultimately have y: "y \<le> of_int B + 0.499" by linarith
    then have "0 < \<lceil>of_int B + 1 - y\<rceil>" by (simp add: less_ceiling_iff)
    moreover have "\<lceil>of_int B + 1 - (y + 1)\<rceil> = \<lceil>of_int B + 1 - y\<rceil> - 1"
    proof -
      have "of_int B + 1 - (y + 1) = (of_int B + 1 - y) - 1" by simp
      then show ?thesis by (simp only: ceiling_diff_one)
    qed
    ultimately have "nat \<lceil>of_int B + 1 - (y + 1)\<rceil> < nat \<lceil>of_int B + 1 - y\<rceil>" by simp
    from less [OF this] obtain y' where
      "unstick blks minX minZ maxX maxZ (y + 1) = Some y'"
      "\<not> collides minX y' minZ maxX (y' + PLAYER_H) maxZ blks" by blast
    with True show ?thesis by (subst unstick.simps) simp
  qed
qed

lemma moveY_returns:
  assumes bound: "\<forall>bx by bz. blks (posKey bx by bz) \<noteq> None \<longrightarrow> by \<le> B"
    and clear: "\<not> collides_at blks (feet f)"
  shows "\<exists>f1. moveY blks step f = Some f1 \<and> \<not> collides_at blks (feet f1)"
proof -
  let ?newY = "py f + vy f * step"
  show ?thesis
  proof (cases "collides (px f - HALF) ?newY (pz f - HALF) (px f + HALF) (?newY + PLAYER_H) (pz f + HALF) blks")
    case False
    then show ?thesis
      by (simp add: moveY_def Let_def collides_at_def feet_def)
  next
    case hit: True
    show ?thesis
    proof (cases "vy f \<le> 0")
      case False
      with hit clear show ?thesis
        by (simp add: moveY_def Let_def collides_at_def feet_def)
    next
      case True
      from unstick_returns [OF bound] obtain y' where
        u: "unstick blks (px f - HALF) (pz f - HALF) (px f + HALF) (pz f + HALF)
              (of_int \<lceil>?newY - 0.5 + 0.001\<rceil> + 0.5) = Some y'"
        and c: "\<not> collides (px f - HALF) y' (pz f - HALF) (px f + HALF) (y' + PLAYER_H) (pz f + HALF) blks"
        by blast
      from hit True u c show ?thesis
        by (simp add: moveY_def Let_def collides_at_def feet_def)
    qed
  qed
qed

lemma moveX_clear: "\<not> collides_at blks (feet f) \<Longrightarrow> \<not> collides_at blks (feet (moveX blks step f))"
  by (simp add: moveX_def Let_def collides_at_def feet_def)

lemma moveZ_clear: "\<not> collides_at blks (feet f) \<Longrightarrow> \<not> collides_at blks (feet (moveZ blks step f))"
  by (simp add: moveZ_def Let_def collides_at_def feet_def)

lemma substep_returns:
  assumes "\<forall>bx by bz. blks (posKey bx by bz) \<noteq> None \<longrightarrow> by \<le> B"
    and "\<not> collides_at blks (feet f)"
  shows "\<exists>f'. substep blks step f = Some f' \<and> \<not> collides_at blks (feet f')"
proof -
  from moveY_returns [OF assms] obtain f1 where
    "moveY blks step f = Some f1" "\<not> collides_at blks (feet f1)" by blast
  then show ?thesis
    by (simp add: substep_def moveX_clear moveZ_clear)
qed

lemma integrate_returns:
  "\<forall>bx by bz. blks (posKey bx by bz) \<noteq> None \<longrightarrow> by \<le> B \<Longrightarrow>
   \<not> collides_at blks (feet f) \<Longrightarrow>
   \<exists>f'. integrate blks remaining f = Some f' \<and> \<not> collides_at blks (feet f')"
proof (induction blks remaining f rule: integrate.induct)
  case (1 blks remaining f)
  note bound = "1.prems"(1)
  show ?case
  proof (cases "remaining > 0.0001")
    case False
    with "1.prems" show ?thesis by (subst integrate.simps) simp
  next
    case True
    from substep_returns [OF bound "1.prems"(2)] obtain f1 where
      s: "substep blks (min remaining SUB_DT) f = Some f1" and c: "\<not> collides_at blks (feet f1)"
      by blast
    from "1.IH" [OF True s bound c] obtain f' where
      "integrate blks (remaining - min remaining SUB_DT) f1 = Some f'" "\<not> collides_at blks (feet f')"
      by blast
    with True s show ?thesis by (subst integrate.simps) simp
  qed
qed

lemma feet_gravity_jump: "feet (gravity_jump jump dt f) = feet f"
  by (simp add: gravity_jump_def feet_def Let_def)

lemmas eval_consts = SUB_DT_def HALF_def PLAYER_W_def PLAYER_H_def GRAVITY_def JUMP_VEL_def

lemmas eval_collides = collides_def fastPosKey_posKey posKey_inj ceiling_one_over_numeral
  upto.simps box_overlaps_cell_def Let_def

lemma clear_by_iff: "clear_of_blocks_by 0.001 blks p \<longleftrightarrow> \<not> collides_at blks p"
  unfolding clear_of_blocks_by_def collides_at_iff by blast

lemma clear_imp_clear_by: "clear_of_blocks blks p \<Longrightarrow> clear_of_blocks_by 0.001 blks p"
  unfolding clear_by_iff by (rule clear_imp_not_collides_at)

lemma wall_start_clear: "clear_of_blocks wall_blocks (feet wall_start)"
  unfolding clear_of_blocks_def
  by (auto simp: wall_blocks_def wall_start_def feet_def posKey_inj player_overlaps_cell_def
      box_overlaps_cell_def eval_consts split: if_splits)

lemma wall_movement: "movement wall_blocks 0.01 False wall_start = Some wall_end"
  by (simp add: movement_def gravity_jump_def wall_start_def wall_end_def integrate.simps
      substep_def moveY_def moveX_def moveZ_def wall_blocks_def unstick.simps
      eval_consts eval_collides)

section \<open>C8: the respawn check\<close>

text \<open>
  C8. If at the respawn check of an update step the player's feet elevation is below the void
  threshold \<open>-20\<close>, the player is relocated to exactly the spawn point \<open>(0, 15, 0)\<close>, the
  vertical velocity is set to zero and the grounded flag is cleared; at or above the threshold
  the check leaves position, velocity and the grounded flag unchanged. The check is what a
  frame applies to the result of its movement integration.
\<close>

theorem respawn_check_spec:
  "(py f < - 20 \<longrightarrow>
      respawn_check f = (f\<lparr>px := 0, py := 15, pz := 0, vy := 0, onGround := False\<rparr>, [PlayRespawn])) \<and>
   (- 20 \<le> py f \<longrightarrow> respawn_check f = (f, [])) \<and>
   (movement blks rawDt jump f0 = Some f \<longrightarrow> useFrame blks rawDt jump f0 = Some (respawn_check f))"
  by (simp add: respawn_check_def RESPAWN_Y_def SPAWN_POS_def useFrame_def)

theorem respawn_check_spec_witness:
  "py fallen < - 20 \<and>
   respawn_check fallen = (\<lparr>px = 0, py = 15, pz = 0, vy = 0, onGround = False, vx = 1, vz = 0\<rparr>, [PlayRespawn]) \<and>
   - 20 \<le> py standing \<and> respawn_check standing = (standing, []) \<and>
   movement wall_blocks 0.01 False wall_start = Some wall_end \<and>
   useFrame wall_blocks 0.01 False wall_start = Some (wall_end, [])"
proof -
  have a: "py fallen < - 20" "- 20 \<le> py standing" "- 20 \<le> py wall_end"
    by (simp_all add: fallen_def standing_def wall_end_def)
  from a(1) respawn_check_spec [of fallen]
  have "respawn_check fallen = (fallen\<lparr>px := 0, py := 15, pz := 0, vy := 0, onGround := False\<rparr>, [PlayRespawn])"
    by blast
  then have b: "respawn_check fallen =
      (\<lparr>px = 0, py = 15, pz = 0, vy = 0, onGround = False, vx = 1, vz = 0\<rparr>, [PlayRespawn])"
    by (simp add: fallen_def)
  from a(2) respawn_check_spec [of standing]
  have c: "respawn_check standing = (standing, [])" by blast
  from a(3) wall_movement respawn_check_spec [of wall_end wall_blocks "0.01" False wall_start]
  have d: "useFrame wall_blocks 0.01 False wall_start = Some (wall_end, [])" by simp
  from a b c d wall_movement show ?thesis by blast
qed

section \<open>C6: the overlap query\<close>

text \<open>
  C6, as the code has it. \<^verbatim>\<open>collides\<close> returns true exactly when some occupied cell of the
  candidate range \<open>ceil(lo - 0.5 + 0.001) .. floor(hi + 0.5 - 0.001)\<close> passes the exact box
  test; that is, exactly when some occupied cell's block overlaps the box by at least
  \<open>0.001\<close> along every axis. Every hit it reports is an exact overlap. An overlap shallower
  than \<open>0.001\<close> on some axis lies outside the candidate range and is not reported, so the
  bounded search is not the same as testing every occupied cell.
\<close>

theorem collides_spec:
  "(collides minX minY minZ maxX maxY maxZ blks \<longleftrightarrow>
      (\<exists>bx by bz. blks (posKey bx by bz) \<noteq> None \<and>
         (\<lceil>minX - 0.5 + 0.001\<rceil> \<le> bx \<and> bx \<le> \<lfloor>maxX + 0.5 - 0.001\<rfloor>) \<and>
         (\<lceil>minY - 0.5 + 0.001\<rceil> \<le> by \<and> by \<le> \<lfloor>maxY + 0.5 - 0.001\<rfloor>) \<and>
         (\<lceil>minZ - 0.5 + 0.001\<rceil> \<le> bz \<and> bz \<le> \<lfloor>maxZ + 0.5 - 0.001\<rfloor>) \<and>
         box_overlaps_cell minX minY minZ maxX maxY maxZ bx by bz)) \<and>
   (collides minX minY minZ maxX maxY maxZ blks \<longleftrightarrow>
      (\<exists>bx by bz. blks (posKey bx by bz) \<noteq> None \<and>
         box_overlaps_cell_by 0.001 minX minY minZ maxX maxY maxZ bx by bz)) \<and>
   (collides minX minY minZ maxX maxY maxZ blks \<longrightarrow>
      (\<exists>bx by bz. blks (posKey bx by bz) \<noteq> None \<and>
         box_overlaps_cell minX minY minZ maxX maxY maxZ bx by bz))"
proof (intro conjI impI)
  show "collides minX minY minZ maxX maxY maxZ blks \<longleftrightarrow>
      (\<exists>bx by bz. blks (posKey bx by bz) \<noteq> None \<and>
         (\<lceil>minX - 0.5 + 0.001\<rceil> \<le> bx \<and> bx \<le> \<lfloor>maxX + 0.5 - 0.001\<rfloor>) \<and>
         (\<lceil>minY - 0.5 + 0.001\<rceil> \<le> by \<and> by \<le> \<lfloor>maxY + 0.5 - 0.001\<rfloor>) \<and>
         (\<lceil>minZ - 0.5 + 0.001\<rceil> \<le> bz \<and> bz \<le> \<lfloor>maxZ + 0.5 - 0.001\<rfloor>) \<and>
         box_overlaps_cell minX minY minZ maxX maxY maxZ bx by bz)"
    by (rule collides_candidates)
  show "collides minX minY minZ maxX maxY maxZ blks \<longleftrightarrow>
      (\<exists>bx by bz. blks (posKey bx by bz) \<noteq> None \<and>
         box_overlaps_cell_by 0.001 minX minY minZ maxX maxY maxZ bx by bz)"
    by (rule collides_iff)
  assume "collides minX minY minZ maxX maxY maxZ blks"
  then show "\<exists>bx by bz. blks (posKey bx by bz) \<noteq> None \<and>
         box_overlaps_cell minX minY minZ maxX maxY maxZ bx by bz"
    unfolding collides_iff by (blast intro: by_imp_exact)
qed

theorem collides_spec_witness:
  "collides 0.5495 0.4975 (- 0.3) 1.1495 2.1975 0.3 wall_blocks \<and>
   (\<exists>bx by bz. wall_blocks (posKey bx by bz) \<noteq> None \<and>
      box_overlaps_cell 0.5495 0.4975 (- 0.3) 1.1495 2.1975 0.3 bx by bz)"
proof -
  have "collides 0.5495 0.4975 (- 0.3) 1.1495 2.1975 0.3 wall_blocks"
    by (simp add: eval_collides wall_blocks_def)
  with collides_spec [of "0.5495" "0.4975" "- 0.3" "1.1495" "2.1975" "0.3" wall_blocks]
  show ?thesis by blast
qed

text \<open>
  The claim as stated fails: the box below overlaps the block of the occupied cell
  \<open>(0, 1, 0)\<close> by \<open>0.0005\<close> along x, and \<^verbatim>\<open>collides\<close> returns false.
\<close>

theorem collides_misses_shallow_overlap:
  "\<not> collides 0.4995 0.5 (- 0.3) 1.0995 2.2 0.3 wall_blocks \<and>
   wall_blocks (posKey 0 1 0) \<noteq> None \<and>
   box_overlaps_cell 0.4995 0.5 (- 0.3) 1.0995 2.2 0.3 0 1 0"
  by (simp add: eval_collides wall_blocks_def)

section \<open>C1: the movement integration and the store\<close>

text \<open>
  C1, as the code has it. In a store with finitely many blocks, for every player state whose
  box overlaps no occupied cell by \<open>0.001\<close> or more along every axis (in particular every
  state whose box overlaps no occupied cell at all), every frame time and every input, the
  sub-stepped movement integration (frame time clamped to \<open>0.1\<close>, vertical velocity clamped to
  \<open>-40\<close>, axes Y, X, Z per sub-step) returns, and the resulting player box again overlaps no
  occupied cell by \<open>0.001\<close> or more along every axis.
\<close>

theorem movement_keeps_clear:
  assumes "finite (dom blks)" and "clear_of_blocks_by 0.001 blks (feet f)"
  shows "\<exists>f'. movement blks rawDt jump f = Some f' \<and> clear_of_blocks_by 0.001 blks (feet f')"
proof -
  from occupied_bounded [OF assms(1)] obtain B where
    bound: "\<forall>bx by bz. blks (posKey bx by bz) \<noteq> None \<longrightarrow> by \<le> B" by blast
  from assms(2) have "\<not> collides_at blks (feet f)"
    by (rule iffD1 [OF clear_by_iff])
  then have "\<not> collides_at blks (feet (gravity_jump jump (min rawDt 0.1) f))"
    by (simp add: feet_gravity_jump)
  from integrate_returns [OF bound this] obtain f' where
    i: "integrate blks (min rawDt 0.1) (gravity_jump jump (min rawDt 0.1) f) = Some f'"
    and c: "\<not> collides_at blks (feet f')" by blast
  from i have "movement blks rawDt jump f = Some f'" by (simp add: movement_def Let_def)
  moreover from c have "clear_of_blocks_by 0.001 blks (feet f')"
    by (rule iffD2 [OF clear_by_iff])
  ultimately show ?thesis by blast
qed

theorem movement_keeps_clear_witness:
  "finite (dom wall_blocks) \<and> clear_of_blocks_by 0.001 wall_blocks (feet wall_start) \<and>
   movement wall_blocks 0.01 False wall_start = Some wall_end \<and>
   clear_of_blocks_by 0.001 wall_blocks (feet wall_end)"
proof -
  have fin: "finite (dom wall_blocks)" by (simp add: wall_blocks_def)
  have cl: "clear_of_blocks_by 0.001 wall_blocks (feet wall_start)"
    using wall_start_clear by (rule clear_imp_clear_by)
  from movement_keeps_clear [OF fin cl, of "0.01" False] wall_movement
  have "clear_of_blocks_by 0.001 wall_blocks (feet wall_end)" by simp
  with fin cl wall_movement show ?thesis by blast
qed

text \<open>
  The claim as stated fails: the player of \<open>wall_start\<close> overlaps no block, walks towards the
  wall for one frame of 10 ms, and ends with its box \<open>0.0005\<close> inside the block \<open>(0, 1, 0)\<close>.
\<close>

theorem movement_overlap_counterexample:
  "finite (dom wall_blocks) \<and> clear_of_blocks wall_blocks (feet wall_start) \<and>
   movement wall_blocks 0.01 False wall_start = Some wall_end \<and>
   \<not> clear_of_blocks wall_blocks (feet wall_end)"
proof -
  have "wall_blocks (posKey 0 1 0) \<noteq> None \<and> player_overlaps_cell (feet wall_end) 0 1 0"
    by (simp add: wall_blocks_def wall_end_def feet_def player_overlaps_cell_def
        box_overlaps_cell_def eval_consts)
  then have "\<not> clear_of_blocks wall_blocks (feet wall_end)"
    unfolding clear_of_blocks_def by blast
  moreover have "finite (dom wall_blocks)" by (simp add: wall_blocks_def)
  ultimately show ?thesis using wall_start_clear wall_movement by blast
qed

section \<open>Terrain lemmas\<close>

lemma height_le: "height x z \<le> 5"
proof -
  let ?E = "sin (of_int x * 0.15) * 2 + cos (of_int z * 0.15) * 2 + sin (of_int (x + z) * 0.1) * 1.5 :: real"
  have "sin (of_int x * 0.15 :: real) \<le> 1" by (rule sin_le_one)
  moreover have "cos (of_int z * 0.15 :: real) \<le> 1" by (rule cos_le_one)
  moreover have "sin (of_int (x + z) * 0.1 :: real) \<le> 1" by (rule sin_le_one)
  ultimately have "?E < of_int 5 + 1" by linarith
  then have "\<lfloor>?E\<rfloor> \<le> 5" by (simp only: floor_le_iff)
  then show ?thesis by (simp only: height_def)
qed

lemma height_origin: "height 0 0 = 2"
  by (simp add: height_def)

lemma fold_upd_other:
  "key \<notin> k ` set ys \<Longrightarrow> fold (\<lambda>y b. b(k y \<mapsto> v y)) ys b key = b key"
  by (induction ys arbitrary: b) auto

lemma fold_upd_hit:
  "inj_on k (set ys) \<Longrightarrow> y \<in> set ys \<Longrightarrow> fold (\<lambda>y b. b(k y \<mapsto> v y)) ys b (k y) = Some (v y)"
proof (induction ys arbitrary: b)
  case Nil
  then show ?case by simp
next
  case (Cons a ys)
  show ?case
  proof (cases "y \<in> set ys")
    case True
    with Cons show ?thesis by simp
  next
    case False
    with Cons.prems have ya: "y = a" by simp
    from False Cons.prems have notin: "k a \<notin> k ` set ys" by (auto simp: inj_on_def)
    have "fold (\<lambda>y b. b(k y \<mapsto> v y)) (a # ys) b (k a) =
          fold (\<lambda>y b. b(k y \<mapsto> v y)) ys (b(k a \<mapsto> v a)) (k a)" by simp
    also from notin have "\<dots> = (b(k a \<mapsto> v a)) (k a)" by (rule fold_upd_other)
    also have "\<dots> = Some (v a)" by simp
    finally have "fold (\<lambda>y b. b(k y \<mapsto> v y)) (a # ys) b (k a) = Some (v a)" .
    then show ?thesis by (simp only: ya)
  qed
qed

lemma fill_column_lookup:
  "fill_column x z b (posKey x' y z') =
     (if x' = x \<and> z' = z \<and> - 3 \<le> y \<and> y \<le> height x z
      then Some (if y = height x z then Grass else if y \<ge> height x z - 2 then Dirt else Stone)
      else b (posKey x' y z'))"
proof (cases "x' = x \<and> z' = z \<and> - 3 \<le> y \<and> y \<le> height x z")
  case True
  have "inj_on (\<lambda>y. posKey x y z) (set [- 3..height x z])"
    by (simp add: inj_on_def posKey_inj)
  moreover from True have "y \<in> set [- 3..height x z]" by simp
  ultimately have h: "fold (\<lambda>y b. b(posKey x y z \<mapsto>
        (if y = height x z then Grass else if y \<ge> height x z - 2 then Dirt else Stone)))
      [- 3..height x z] b (posKey x y z) =
      Some (if y = height x z then Grass else if y \<ge> height x z - 2 then Dirt else Stone)"
    by (rule fold_upd_hit)
  show ?thesis unfolding fill_column_def Let_def using True h by simp
next
  case False
  then have "posKey x' y z' \<notin> (\<lambda>y. posKey x y z) ` set [- 3..height x z]"
    by (auto simp: posKey_inj)
  then have h: "fold (\<lambda>y b. b(posKey x y z \<mapsto>
        (if y = height x z then Grass else if y \<ge> height x z - 2 then Dirt else Stone)))
      [- 3..height x z] b (posKey x' y z') = b (posKey x' y z')"
    by (rule fold_upd_other)
  show ?thesis by (simp only: fill_column_def Let_def h False if_False)
qed

lemma fill_row_lookup:
  "fold (\<lambda>z b. fill_column x z b) zs b (posKey x' y z') =
     (if x' = x \<and> z' \<in> set zs \<and> - 3 \<le> y \<and> y \<le> height x z'
      then Some (if y = height x z' then Grass else if y \<ge> height x z' - 2 then Dirt else Stone)
      else b (posKey x' y z'))"
  by (induction zs arbitrary: b) (auto simp: fill_column_lookup)

lemma fill_rows_lookup:
  "fold (\<lambda>x b. fold (\<lambda>z b. fill_column x z b) zs b) xs b (posKey x' y z') =
     (if x' \<in> set xs \<and> z' \<in> set zs \<and> - 3 \<le> y \<and> y \<le> height x' z'
      then Some (if y = height x' z' then Grass else if y \<ge> height x' z' - 2 then Dirt else Stone)
      else b (posKey x' y z'))"
  by (induction xs arbitrary: b) (auto simp: fill_row_lookup)

lemma find_first_is_greatest:
  "find P xs = Some g \<Longrightarrow> sorted (rev xs) \<Longrightarrow> y \<in> set xs \<Longrightarrow> P y \<Longrightarrow> (y :: int) \<le> g"
proof (induction xs)
  case Nil
  then show ?case by simp
next
  case (Cons a xs)
  from Cons.prems(2) have s: "sorted (rev xs)" and le: "\<forall>x\<in>set xs. x \<le> a"
    by (auto simp: sorted_append)
  show ?case
  proof (cases "P a")
    case True
    with Cons.prems(1) have "g = a" by simp
    with Cons.prems(3) le show ?thesis by auto
  next
    case False
    with Cons.prems have "find P xs = Some g" "y \<in> set xs" by auto
    with Cons.IH s Cons.prems(4) show ?thesis by blast
  qed
qed

lemma ground_scan:
  assumes "b (posKey tx y tz) \<noteq> None" "- 3 \<le> y" "y \<le> 10"
  shows "y \<le> (case find (\<lambda>y. b (posKey tx y tz) \<noteq> None) (rev [- 3..10]) of
                 Some g \<Rightarrow> g | None \<Rightarrow> 10)"
proof (cases "find (\<lambda>y. b (posKey tx y tz) \<noteq> None) (rev [- 3..10])")
  case None
  with assms(3) show ?thesis by simp
next
  case (Some g)
  have "sorted (rev (rev [- 3..10 :: int]))" by (simp only: rev_rev_ident sorted_upto)
  moreover from assms(2,3) have "y \<in> set (rev [- 3..10])"
    by (simp only: set_rev set_upto atLeastAtMost_iff simp_thms)
  ultimately have "y \<le> g" using Some assms(1)
    by (intro find_first_is_greatest [where P = "\<lambda>y. b (posKey tx y tz) \<noteq> None"])
  with Some show ?thesis by simp
qed

lemma plant_tree_lookup:
  "plant_tree (tx, t, tz) b (posKey x y z) =
     (if x = tx \<and> z = tz \<and>
         y \<in> (\<lambda>dy. (case find (\<lambda>y. b (posKey tx y tz) \<noteq> None) (rev [- 3..10]) of
                        Some g \<Rightarrow> g | None \<Rightarrow> 10) + dy) ` set [1..4]
      then Some Wood else b (posKey x y z))"
proof -
  define g where "g = (case find (\<lambda>y. b (posKey tx y tz) \<noteq> None) (rev [- 3..10]) of
                        Some g \<Rightarrow> g | None \<Rightarrow> 10)"
  have pt: "plant_tree (tx, t, tz) b = fold (\<lambda>dy b. b(posKey tx (g + dy) tz \<mapsto> Wood)) [1..4] b"
    by (simp only: plant_tree_def g_def Let_def prod.case)
  show ?thesis
  proof (cases "x = tx \<and> z = tz \<and> y \<in> (\<lambda>dy. g + dy) ` set [1..4]")
    case True
    then obtain dy where dy: "dy \<in> set [1..4]" "y = g + dy" by blast
    have "inj_on (\<lambda>dy. posKey tx (g + dy) tz) (set [1..4])"
      by (simp add: inj_on_def posKey_inj)
    from fold_upd_hit [OF this dy(1), of "\<lambda>_. Wood" b]
    have "plant_tree (tx, t, tz) b (posKey tx (g + dy) tz) = Some Wood" by (simp only: pt)
    with True dy show ?thesis unfolding g_def [symmetric] by simp
  next
    case False
    then have "posKey x y z \<notin> (\<lambda>dy. posKey tx (g + dy) tz) ` set [1..4]"
      by (auto simp: posKey_inj)
    from fold_upd_other [OF this, of "\<lambda>_. Wood" b]
    have "plant_tree (tx, t, tz) b (posKey x y z) = b (posKey x y z)" by (simp only: pt)
    with False show ?thesis unfolding g_def [symmetric] by (simp only: if_False)
  qed
qed

lemma plant_tree_keeps:
  assumes "b (posKey x y z) \<noteq> None" "- 3 \<le> y" "y \<le> 10"
  shows "plant_tree t b (posKey x y z) = b (posKey x y z)"
proof -
  obtain tx t' tz where t: "t = (tx, t', tz)" by (cases t)
  show ?thesis
  proof (cases "x = tx \<and> z = tz")
    case True
    with assms have "y \<le> (case find (\<lambda>y. b (posKey tx y tz) \<noteq> None) (rev [- 3..10]) of
                 Some g \<Rightarrow> g | None \<Rightarrow> 10)"
      by (intro ground_scan) (simp_all del: upto_rec_numeral)
    then have "y \<notin> (\<lambda>dy. (case find (\<lambda>y. b (posKey tx y tz) \<noteq> None) (rev [- 3..10]) of
                        Some g \<Rightarrow> g | None \<Rightarrow> 10) + dy) ` set [1..4]"
      by auto
    then show ?thesis unfolding t plant_tree_lookup by (simp only: if_False simp_thms)
  next
    case False
    then show ?thesis unfolding t plant_tree_lookup by auto
  qed
qed

lemma plant_tree_new:
  "plant_tree t b (posKey x y z) \<noteq> None \<Longrightarrow>
     b (posKey x y z) \<noteq> None \<or> (x = fst t \<and> z = snd (snd t))"
  by (cases t) (auto simp: plant_tree_lookup split: if_splits)

lemma plant_trees_keep:
  "b (posKey x y z) \<noteq> None \<Longrightarrow> - 3 \<le> y \<Longrightarrow> y \<le> 10 \<Longrightarrow>
     fold plant_tree ts b (posKey x y z) = b (posKey x y z)"
proof (induction ts arbitrary: b)
  case Nil
  then show ?case by simp
next
  case (Cons t ts)
  from Cons.prems have k: "plant_tree t b (posKey x y z) = b (posKey x y z)"
    by (rule plant_tree_keeps)
  with Cons.prems have "plant_tree t b (posKey x y z) \<noteq> None" by simp
  with Cons.IH [of "plant_tree t b"] Cons.prems(2,3) k show ?case by simp
qed

lemma plant_trees_new:
  "fold plant_tree ts b (posKey x y z) \<noteq> None \<Longrightarrow>
     b (posKey x y z) \<noteq> None \<or> (x, z) \<in> (\<lambda>t. (fst t, snd (snd t))) ` set ts"
proof (induction ts arbitrary: b)
  case Nil
  then show ?case by simp
next
  case (Cons t ts)
  from Cons.prems have "fold plant_tree ts (plant_tree t b) (posKey x y z) \<noteq> None" by simp
  from Cons.IH [OF this] show ?case
    using plant_tree_new [of t b x y z] by auto
qed

lemma footprint_lookup:
  "fold (\<lambda>x b. fold (\<lambda>z b. fill_column x z b) [- SIZE..SIZE] b) [- SIZE..SIZE] Map.empty
     (posKey x y z) =
     (if - 16 \<le> x \<and> x \<le> 16 \<and> - 16 \<le> z \<and> z \<le> 16 \<and> - 3 \<le> y \<and> y \<le> height x z
      then Some (if y = height x z then Grass else if y \<ge> height x z - 2 then Dirt else Stone)
      else None)"
  unfolding fill_rows_lookup by (simp add: SIZE_def del: upto_rec_numeral)

lemma terrain_filled:
  assumes "- 16 \<le> x" "x \<le> 16" "- 16 \<le> z" "z \<le> 16" "- 3 \<le> y" "y \<le> height x z"
  shows "generateTerrain (posKey x y z) =
           Some (if y = height x z then Grass else if y \<ge> height x z - 2 then Dirt else Stone)"
proof -
  let ?b = "fold (\<lambda>x b. fold (\<lambda>z b. fill_column x z b) [- SIZE..SIZE] b) [- SIZE..SIZE] Map.empty"
  from assms have f: "?b (posKey x y z) =
      Some (if y = height x z then Grass else if y \<ge> height x z - 2 then Dirt else Stone)"
    unfolding footprint_lookup by simp
  then have ne: "?b (posKey x y z) \<noteq> None" by simp
  from assms(6) height_le [of x z] have "y \<le> 10" by simp
  with plant_trees_keep [of ?b x y z trees] ne assms(5) f show ?thesis
    unfolding generateTerrain_def Let_def by simp
qed

lemma terrain_populated:
  assumes "generateTerrain (posKey x y z) \<noteq> None"
  shows "(- 16 \<le> x \<and> x \<le> 16 \<and> - 16 \<le> z \<and> z \<le> 16 \<and> - 3 \<le> y \<and> y \<le> height x z) \<or>
         (x, z) \<in> {(3, 4), (- 5, - 7), (10, - 3), (- 8, 12), (6, - 10)}"
proof -
  let ?b = "fold (\<lambda>x b. fold (\<lambda>z b. fill_column x z b) [- SIZE..SIZE] b) [- SIZE..SIZE] Map.empty"
  from assms have "fold plant_tree trees ?b (posKey x y z) \<noteq> None"
    unfolding generateTerrain_def Let_def .
  then have "?b (posKey x y z) \<noteq> None \<or> (x, z) \<in> (\<lambda>t. (fst t, snd (snd t))) ` set trees"
    by (rule plant_trees_new)
  then show ?thesis
  proof
    assume "?b (posKey x y z) \<noteq> None"
    then show ?thesis unfolding footprint_lookup by (simp split: if_splits)
  next
    assume "(x, z) \<in> (\<lambda>t. (fst t, snd (snd t))) ` set trees"
    then show ?thesis by (simp add: trees_def)
  qed
qed

section \<open>C7: terrain layering\<close>

text \<open>
  C7. For every column \<open>(x, z)\<close> of the footprint \<open>-16 \<le> x, z \<le> 16\<close>, the generator fills every
  integer \<open>y\<close> from the floor \<open>-3\<close> up to the computed height \<open>h(x, z)\<close>; in the filled column
  the cell \<open>y = h\<close> is grass, the two below (\<open>h - 2 \<le> y < h\<close>) are dirt and every cell below
  that is stone; and no cell outside the filled columns of the footprint and the five tree
  columns is populated.
\<close>

theorem terrain_layering:
  "(- 16 \<le> x \<and> x \<le> 16 \<and> - 16 \<le> z \<and> z \<le> 16 \<and> - 3 \<le> y \<and> y \<le> height x z \<longrightarrow>
      generateTerrain (posKey x y z) =
        Some (if y = height x z then Grass else if y \<ge> height x z - 2 then Dirt else Stone)) \<and>
   (generateTerrain (posKey x y z) \<noteq> None \<longrightarrow>
      (- 16 \<le> x \<and> x \<le> 16 \<and> - 16 \<le> z \<and> z \<le> 16 \<and> - 3 \<le> y \<and> y \<le> height x z) \<or>
      (x, z) \<in> {(3, 4), (- 5, - 7), (10, - 3), (- 8, 12), (6, - 10)})"
  using terrain_filled [of x z y] terrain_populated [of x y z] by blast

theorem terrain_layering_witness:
  "height 0 0 = 2 \<and>
   generateTerrain (posKey 0 2 0) = Some Grass \<and>
   generateTerrain (posKey 0 1 0) = Some Dirt \<and>
   generateTerrain (posKey 0 0 0) = Some Dirt \<and>
   generateTerrain (posKey 0 (- 1) 0) = Some Stone \<and>
   generateTerrain (posKey 0 (- 3) 0) = Some Stone \<and>
   generateTerrain (posKey 0 3 0) = None"
  using terrain_layering [of 0 0 2] terrain_layering [of 0 0 1] terrain_layering [of 0 0 0]
    terrain_layering [of 0 0 "- 1"] terrain_layering [of 0 0 "- 3"] terrain_layering [of 0 0 3]
  by (simp add: height_origin)

section \<open>Placement lemmas\<close>

text \<open>
  What \<^verbatim>\<open>addBlock\<close> does under its own guard: an empty cell that the guard does not flag is
  filled with the active block type and the version goes up by one; an occupied cell, or a cell
  the guard flags, is rejected with the state unchanged; a second placement on the cell just
  filled is rejected whatever the active type is by then.
\<close>

lemma addBlock_accepts:
  "blocks s (posKey x y z) = None \<Longrightarrow> \<not> overlapsPlayer x y z (playerPosition s) \<Longrightarrow>
     addBlock s (x, y, z) =
       (s\<lparr>blocks := (blocks s)(posKey x y z \<mapsto> activeBlockType s),
          blockVersion := blockVersion s + 1\<rparr>, [PlayPlace])"
  by (simp add: addBlock_def Let_def)

lemma addBlock_rejects_occupied:
  "blocks s (posKey x y z) \<noteq> None \<Longrightarrow> addBlock s (x, y, z) = (s, [])"
  by (auto simp: addBlock_def Let_def)

lemma addBlock_rejects_guard:
  "overlapsPlayer x y z (playerPosition s) \<Longrightarrow> addBlock s (x, y, z) = (s, [])"
  by (auto simp: addBlock_def Let_def)

lemma addBlock_twice:
  assumes "blocks s (posKey x y z) = None" "\<not> overlapsPlayer x y z (playerPosition s)"
  shows "blocks (fst (addBlock s (x, y, z))) (posKey x y z) = Some (activeBlockType s) \<and>
         blockVersion (fst (addBlock s (x, y, z))) = blockVersion s + 1 \<and>
         addBlock (setActiveBlockType (fst (addBlock s (x, y, z))) t) (x, y, z) =
           (setActiveBlockType (fst (addBlock s (x, y, z))) t, [])"
  using assms by (simp add: addBlock_accepts addBlock_rejects_occupied setActiveBlockType_def)

lemma spawn_store_fields:
  "blocks spawn_store = generateTerrain" "blockVersion spawn_store = 0"
  "activeBlockType spawn_store = Grass" "playerPosition spawn_store = (0, 15, 0)"
  by (simp_all add: spawn_store_def setPlayerPosition_def useStore_def Let_def)

lemma spawn_column_empty_above: "3 \<le> y \<Longrightarrow> generateTerrain (posKey 0 y 0) = None"
proof (rule ccontr)
  assume y: "3 \<le> y" and "generateTerrain (posKey 0 y 0) \<noteq> None"
  then have "(- 16 \<le> (0::int) \<and> (0::int) \<le> 16 \<and> - 16 \<le> (0::int) \<and> (0::int) \<le> 16 \<and> - 3 \<le> y \<and> y \<le> height 0 0) \<or>
         ((0::int), (0::int)) \<in> {(3, 4), (- 5, - 7), (10, - 3), (- 8, 12), (6, - 10)}"
    by (intro terrain_populated)
  with y show False by (simp add: height_origin)
qed

text \<open>
  The scenario of the spec on the store as it starts: placing stone at \<open>(5, 10, 5)\<close>, then
  wood at the same cell. The first call fills the cell and brings the version to 1; the second
  is rejected and the cell keeps the stone.
\<close>

lemma high_cell_empty:
  assumes "5 < y" "(x, z) \<notin> {(3, 4), (- 5, - 7), (10, - 3), (- 8, 12), (6, - 10)}"
  shows "generateTerrain (posKey x y z) = None"
proof (rule ccontr)
  assume "generateTerrain (posKey x y z) \<noteq> None"
  then have "(- 16 \<le> x \<and> x \<le> 16 \<and> - 16 \<le> z \<and> z \<le> 16 \<and> - 3 \<le> y \<and> y \<le> height x z) \<or>
         (x, z) \<in> {(3, 4), (- 5, - 7), (10, - 3), (- 8, 12), (6, - 10)}"
    by (rule terrain_populated)
  with assms(2) have "y \<le> height x z" by blast
  with height_le [of x z] assms(1) show False by simp
qed

lemma addBlock_scenario:
  "blocks (fst (addBlock (setActiveBlockType useStore Stone) (5, 10, 5))) (posKey 5 10 5) = Some Stone \<and>
   blockVersion (fst (addBlock (setActiveBlockType useStore Stone) (5, 10, 5))) = 1 \<and>
   addBlock (setActiveBlockType (fst (addBlock (setActiveBlockType useStore Stone) (5, 10, 5))) Wood)
       (5, 10, 5) =
     (setActiveBlockType (fst (addBlock (setActiveBlockType useStore Stone) (5, 10, 5))) Wood, []) \<and>
   blocks (setActiveBlockType (fst (addBlock (setActiveBlockType useStore Stone) (5, 10, 5))) Wood)
       (posKey 5 10 5) = Some Stone"
proof -
  let ?s = "setActiveBlockType useStore Stone"
  have e: "blocks ?s (posKey 5 10 5) = None"
    by (simp add: setActiveBlockType_def useStore_def high_cell_empty)
  have g: "\<not> overlapsPlayer 5 10 5 (playerPosition ?s)"
    by (simp add: setActiveBlockType_def useStore_def overlapsPlayer_def)
  from addBlock_twice [OF e g, of Wood] show ?thesis
    by (simp add: setActiveBlockType_def useStore_def)
qed

section \<open>C2: placing a block clear of the player\<close>

text \<open>
  C2 says that \<^verbatim>\<open>add\<close> succeeds on every unoccupied position that does not overlap the
  player AABB, with \<^verbatim>\<open>get(p) == T\<close> and the version one greater afterwards, and that a
  repeated \<^verbatim>\<open>add\<close> on it is rejected without mutation. The guard of \<^verbatim>\<open>addBlock\<close> is not the
  player AABB of Player.tsx: it spans \<open>0.9\<close> below and above the stored feet position. With
  the player's feet at \<open>(0, 15, 0)\<close> the empty cell \<open>(0, 14, 0)\<close>, whose block ends at
  \<open>y = 14.5\<close> below the feet, does not overlap the player box, and the code rejects it.
\<close>

theorem addBlock_rejects_clear_cell:
  "blocks spawn_store (posKey 0 14 0) = None \<and>
   \<not> player_overlaps_cell (playerPosition spawn_store) 0 14 0 \<and>
   addBlock spawn_store (0, 14, 0) = (spawn_store, [])"
proof -
  have "overlapsPlayer 0 14 0 (playerPosition spawn_store)"
    by (simp add: spawn_store_fields overlapsPlayer_def)
  then have "addBlock spawn_store (0, 14, 0) = (spawn_store, [])"
    by (rule addBlock_rejects_guard)
  moreover have "blocks spawn_store (posKey 0 14 0) = None"
    by (simp add: spawn_store_fields spawn_column_empty_above)
  moreover have "\<not> player_overlaps_cell (playerPosition spawn_store) 0 14 0"
    by (simp add: spawn_store_fields player_overlaps_cell_def box_overlaps_cell_def eval_consts)
  ultimately show ?thesis by blast
qed

section \<open>C3: placing a block into the player\<close>

text \<open>
  C3 says that \<^verbatim>\<open>add\<close> at a position whose unit cube overlaps the player AABB (feet-anchored,
  height \<open>1.7\<close> upward from the feet) is always rejected. With the player's feet at
  \<open>(0, 15, 0)\<close> the box reaches \<open>y = 16.7\<close>; the block of the empty cell \<open>(0, 17, 0)\<close> starts at
  \<open>y = 16.5\<close> and overlaps it, and the code places the block and bumps the version.
\<close>

theorem addBlock_accepts_cell_in_player:
  "blocks spawn_store (posKey 0 17 0) = None \<and>
   player_overlaps_cell (playerPosition spawn_store) 0 17 0 \<and>
   addBlock spawn_store (0, 17, 0) =
     (spawn_store\<lparr>blocks := (blocks spawn_store)(posKey 0 17 0 \<mapsto> Grass), blockVersion := 1\<rparr>,
      [PlayPlace])"
proof -
  have e: "blocks spawn_store (posKey 0 17 0) = None"
    by (simp add: spawn_store_fields spawn_column_empty_above)
  have "\<not> overlapsPlayer 0 17 0 (playerPosition spawn_store)"
    by (simp add: spawn_store_fields overlapsPlayer_def)
  with e have "addBlock spawn_store (0, 17, 0) =
       (spawn_store\<lparr>blocks := (blocks spawn_store)(posKey 0 17 0 \<mapsto> activeBlockType spawn_store),
          blockVersion := blockVersion spawn_store + 1\<rparr>, [PlayPlace])"
    by (rule addBlock_accepts)
  moreover have "player_overlaps_cell (playerPosition spawn_store) 0 17 0"
    by (simp add: spawn_store_fields player_overlaps_cell_def box_overlaps_cell_def eval_consts)
  ultimately show ?thesis using e by (simp add: spawn_store_fields)
qed

section \<open>C9: decoding a malformed key\<close>

lemma posKey_three_parts: "length (split (CHR '','') (posKey x y z)) = 3"
  by (simp add: split_posKey)

text \<open>
  C9, as the code has it. \<^verbatim>\<open>keyToPos\<close> never fails: for every key, well formed or not, it
  returns a triple through the normal return, and a component whose part is missing from the
  key is NaN.
\<close>

theorem keyToPos_never_fails:
  "\<exists>a b c. keyToPos key = Inr (a, b, c) \<and>
     (length (split (CHR '','') key) \<le> 1 \<longrightarrow> b = NaN) \<and>
     (length (split (CHR '','') key) \<le> 2 \<longrightarrow> c = NaN)"
  by (simp add: keyToPos_def Let_def index_def Number_def)

theorem keyToPos_never_fails_witness:
  "length (split (CHR '','') ''7,x'') \<le> 2 \<and>
   (\<exists>a b. keyToPos ''7,x'' = Inr (a, b, NaN)) \<and>
   length (split (CHR '','') ''abc'') \<le> 1 \<and>
   (\<exists>a. keyToPos ''abc'' = Inr (a, NaN, NaN))"
proof -
  have l: "length (split (CHR '','') ''7,x'') = 2" "length (split (CHR '','') ''abc'') = 1"
    by simp_all
  from keyToPos_never_fails [of "''7,x''"] keyToPos_never_fails [of "''abc''"] l
  show ?thesis by auto
qed

text \<open>
  The claim as stated fails: \<^verbatim>\<open>abc\<close> encodes no cell, and decoding it returns three NaN
  rather than raising.
\<close>

theorem keyToPos_returns_on_malformed_key:
  "\<not> encodes_cell ''abc'' \<and> keyToPos ''abc'' = Inr (NaN, NaN, NaN)"
proof -
  have "\<not> encodes_cell ''abc''"
  proof
    assume "encodes_cell ''abc''"
    then obtain x y z where "''abc'' = posKey x y z" unfolding encodes_cell_def by blast
    then have "length (split (CHR '','') ''abc'') = 3" by (simp only: posKey_three_parts)
    then show False by simp
  qed
  moreover have "keyToPos ''abc'' = Inr (NaN, NaN, NaN)"
    by code_simp
  ultimately show ?thesis by blast
qed

end
